theory Spec2Isabelle
  imports Main "HOL-Library.AList"
begin

section \<open>JavaScript values, objects and the URL query string\<close>

text \<open>
  The values that flow through the search component: strings (the term, the filter
  values, URL parameters), numbers (\<open>page\<close>, \<open>limit\<close>) and \<open>undefined\<close> (a filter
  value the filter panel may leave unset).
\<close>

datatype jsval = JUndefined | JStr string | JNum nat

text \<open>The test \<open>if (value)\<close>: \<open>undefined\<close>, the empty string and \<open>0\<close> are falsy.\<close>

fun truthy :: "jsval \<Rightarrow> bool" where
  "truthy JUndefined = False"
| "truthy (JStr s) = (s \<noteq> [])"
| "truthy (JNum n) = (n \<noteq> 0)"

definition digit_char :: "nat \<Rightarrow> char" where
  "digit_char d = ''0123456789'' ! d"

function string_of_nat :: "nat \<Rightarrow> string" where
  "string_of_nat n =
     (if n < 10 then [digit_char n] else string_of_nat (n div 10) @ [digit_char (n mod 10)])"
  by pat_completeness auto
termination
  by (relation "measure id") auto

declare string_of_nat.simps [simp del]

text \<open>\<open>String(value)\<close>, the conversion \<open>URLSearchParams.set\<close> applies to its argument.\<close>

fun to_string :: "jsval \<Rightarrow> string" where
  "to_string JUndefined = ''undefined''"
| "to_string (JStr s) = s"
| "to_string (JNum n) = string_of_nat n"

text \<open>
  An object literal is the list of its properties in insertion order; a property name
  occurs once. \<open>{...a, ...b}\<close> copies \<open>a\<close> and then writes every property of \<open>b\<close>, in
  order: an existing name keeps its position and takes the new value, a new name is
  appended (\<open>AList.update\<close>).
\<close>

type_synonym obj = "(string \<times> jsval) list"

definition spread :: "obj \<Rightarrow> obj \<Rightarrow> obj" where
  "spread a b = fold (\<lambda>(k, v). AList.update k v) b a"

text \<open>
  \<open>URLSearchParams\<close>: an ordered list of name-value pairs in which a name may repeat.
  \<open>get\<close> returns the first value of a name (or \<open>null\<close>), \<open>getAll\<close> all of them,
  \<open>set\<close> overwrites the first pair of the name and removes the others (appending
  when there is none), \<open>delete\<close> removes every pair of the name.
\<close>

type_synonym query = "(string \<times> string) list"

definition usp_get :: "query \<Rightarrow> string \<Rightarrow> string option" where
  "usp_get q k = map_of q k"

definition usp_getAll :: "query \<Rightarrow> string \<Rightarrow> string list" where
  "usp_getAll q k = map snd (filter (\<lambda>p. fst p = k) q)"

definition usp_delete :: "string \<Rightarrow> query \<Rightarrow> query" where
  "usp_delete k q = filter (\<lambda>p. fst p \<noteq> k) q"

fun usp_set :: "string \<Rightarrow> string \<Rightarrow> query \<Rightarrow> query" where
  "usp_set k v [] = [(k, v)]"
| "usp_set k v (p # q) = (if fst p = k then (k, v) # usp_delete k q else p # usp_set k v q)"

text \<open>
  \<open>updateUrlWithSearchParams(params)\<close>: starting from the current location, every
  entry of \<open>params\<close> is either set (truthy value) or deleted (falsy value); the result
  is pushed as the new location.
\<close>

definition updateUrlWithSearchParams :: "obj \<Rightarrow> query \<Rightarrow> query" where
  "updateUrlWithSearchParams params url =
     fold (\<lambda>(key, val) u. if truthy val then usp_set key (to_string val) u
                            else usp_delete key u) params url"

section \<open>The search component (DocumentSearch)\<close>

text \<open>
  What \<open>fetchDocuments\<close> closes over in one render (the dependencies of its
  \<open>useCallback\<close>).
\<close>

record closure =
  c_searchTerm :: string
  c_filters :: obj
  c_page :: nat

text \<open>One call of \<open>searchDocuments\<close> that has not settled: the locals of \<open>fetchDocuments\<close>.\<close>

record fetch =
  isNewSearch :: bool
  currentPage :: nat
  searchParams :: obj

record 'd response =
  data :: "'d list"
  totalPages :: int

text \<open>
  The hook state of the component together with what it acts on: the location's query
  string, the clock, the timeouts that are set and have neither fired nor been cleared
  (each with its handle, its deadline and the \<open>fetchDocuments\<close> it will call, in the
  order they were set), the handle \<open>setTimeout\<close> returns next, the \<open>handler\<close> that
  the cleanup of the second effect closes over (none before the effect has run), the
  calls of \<open>searchDocuments\<close> awaiting their answer, every call issued so far, and
  the console.
\<close>

record ('d, 'e) state =
  searchTerm :: string
  filters :: obj
  documents :: "'d list"
  loading :: bool
  page :: nat
  hasMore :: bool
  location :: query
  now :: nat
  timers :: "(nat \<times> nat \<times> closure) list"
  next_handle :: nat
  handler :: "nat option"
  pending :: "fetch list"
  issued :: "fetch list"
  console :: "(string \<times> 'e) list"

definition current_closure :: "('d, 'e) state \<Rightarrow> closure" where
  "current_closure s =
     \<lparr>c_searchTerm = searchTerm s, c_filters = filters s, c_page = page s\<rparr>"

text \<open>\<open>fetchDocuments(isNewSearch)\<close> up to the \<open>await\<close>.\<close>

definition make_fetch :: "closure \<Rightarrow> bool \<Rightarrow> fetch" where
  "make_fetch c isNew =
     (let cur = (if isNew then 1 else c_page c)
      in \<lparr>isNewSearch = isNew, currentPage = cur,
          searchParams = spread [(''query'', JStr (c_searchTerm c)), (''page'', JNum cur),
                                 (''limit'', JNum 12)] (c_filters c)\<rparr>)"

definition fetchDocuments :: "closure \<Rightarrow> bool \<Rightarrow> ('d, 'e) state \<Rightarrow> ('d, 'e) state" where
  "fetchDocuments c isNew s =
     s\<lparr>loading := True,
       pending := pending s @ [make_fetch c isNew],
       issued := issued s @ [make_fetch c isNew]\<rparr>"

text \<open>The rest of the \<open>try\<close> block and the \<open>finally\<close>, once the answer is there.\<close>

definition fetch_resolved :: "fetch \<Rightarrow> 'd response \<Rightarrow> ('d, 'e) state \<Rightarrow> ('d, 'e) state" where
  "fetch_resolved f r s =
     s\<lparr>documents := (if isNewSearch f then data r else documents s @ data r),
       hasMore := (totalPages r > int (currentPage f)),
       location := updateUrlWithSearchParams (searchParams f) (location s),
       loading := False\<rparr>"

text \<open>The \<open>catch\<close> block and the \<open>finally\<close>, when \<open>searchDocuments\<close> rejects.\<close>

definition fetch_rejected :: "'e \<Rightarrow> ('d, 'e) state \<Rightarrow> ('d, 'e) state" where
  "fetch_rejected err s =
     s\<lparr>console := console s @ [(''Error al buscar documentos:'', err)],
       loading := False\<rparr>"

text \<open>
  The two effects after a render. The first has the dependency \<open>[page]\<close> and calls
  \<open>fetchDocuments(false)\<close>. The second has \<open>[searchTerm, filters, fetchDocuments]\<close>,
  and \<open>fetchDocuments\<close> is a new function whenever \<open>searchTerm\<close>, \<open>filters\<close> or
  \<open>page\<close> changed: the cleanup its previous run returned is called, and it sets a
  timeout 500ms from now and keeps the handle.

  \<open>setTimeout\<close> adds a timeout to the ones already set, whatever they are;
  \<open>clearTimeout(h)\<close> removes the one with the handle \<open>h\<close>, if it is still there;
  the cleanup is \<open>() => clearTimeout(handler)\<close>.
\<close>

definition clearTimeout :: "nat \<Rightarrow> ('d, 'e) state \<Rightarrow> ('d, 'e) state" where
  "clearTimeout h s = s\<lparr>timers := filter (\<lambda>t. fst t \<noteq> h) (timers s)\<rparr>"

definition setTimeout_fetch :: "('d, 'e) state \<Rightarrow> ('d, 'e) state" where
  "setTimeout_fetch s =
     s\<lparr>timers := timers s @ [(next_handle s, now s + 500, current_closure s)],
       handler := Some (next_handle s),
       next_handle := Suc (next_handle s)\<rparr>"

definition cleanup :: "('d, 'e) state \<Rightarrow> ('d, 'e) state" where
  "cleanup s = (case handler s of None \<Rightarrow> s | Some h \<Rightarrow> clearTimeout h s)"

definition run_effects :: "bool \<Rightarrow> bool \<Rightarrow> ('d, 'e) state \<Rightarrow> ('d, 'e) state" where
  "run_effects page_changed search_changed s =
     (let s1 = (if page_changed then fetchDocuments (current_closure s) False s else s)
      in if search_changed then setTimeout_fetch (cleanup s1) else s1)"

text \<open>
  Mounting: the state is seeded from the location (\<open>get(k) || ''\<close>) and both effects
  run.
\<close>

definition get_or_empty :: "query \<Rightarrow> string \<Rightarrow> string" where
  "get_or_empty q k = (case usp_get q k of None \<Rightarrow> [] | Some v \<Rightarrow> v)"

definition initial_state :: "query \<Rightarrow> ('d, 'e) state" where
  "initial_state q =
     \<lparr>searchTerm = get_or_empty q ''query'',
      filters = [(''category'', JStr (get_or_empty q ''category'')),
                 (''university'', JStr (get_or_empty q ''university'')),
                 (''fromDate'', JStr (get_or_empty q ''fromDate'')),
                 (''toDate'', JStr (get_or_empty q ''toDate''))],
      documents = [], loading = False, page = 1, hasMore = True,
      location = q, now = 0, timers = [], next_handle = 1, handler = None,
      pending = [], issued = [], console = []\<rparr>"

definition mount :: "query \<Rightarrow> ('d, 'e) state" where
  "mount q = run_effects True True (initial_state q)"

text \<open>
  The events. \<open>setSearchTerm\<close> with the value the state already has renders
  nothing; \<open>setFilters\<close> always stores a new object, so the second effect always
  runs after \<open>updateFilters\<close>, and the first one runs when \<open>setPage(1)\<close> changed the
  page.
\<close>

definition setSearchTerm :: "string \<Rightarrow> ('d, 'e) state \<Rightarrow> ('d, 'e) state" where
  "setSearchTerm t s =
     (if t = searchTerm s then s else run_effects False True (s\<lparr>searchTerm := t\<rparr>))"

definition updateFilters :: "obj \<Rightarrow> ('d, 'e) state \<Rightarrow> ('d, 'e) state" where
  "updateFilters newFilters s =
     run_effects (page s \<noteq> 1) True
       (s\<lparr>filters := spread (filters s) newFilters, page := 1\<rparr>)"

definition handleLoadMore :: "('d, 'e) state \<Rightarrow> ('d, 'e) state" where
  "handleLoadMore s =
     (if \<not> loading s \<and> hasMore s then run_effects True True (s\<lparr>page := page s + 1\<rparr>)
      else s)"

text \<open>
  \<open>d\<close> milliseconds pass without any other event: every timeout whose deadline is
  reached fires, the earliest deadline first (and the one set first among equal
  deadlines), calling the \<open>fetchDocuments(true)\<close> it holds; the others stay set.
\<close>

definition elapse :: "nat \<Rightarrow> ('d, 'e) state \<Rightarrow> ('d, 'e) state" where
  "elapse d s =
     (let t = now s + d;
          due = sort_key (\<lambda>(h, deadline, c). deadline)
                  (filter (\<lambda>(h, deadline, c). deadline \<le> t) (timers s));
          s1 = s\<lparr>now := t, timers := filter (\<lambda>(h, deadline, c). \<not> deadline \<le> t) (timers s)\<rparr>
      in fold (\<lambda>(h, deadline, c). fetchDocuments c True) due s1)"

text \<open>The \<open>i\<close>-th pending call of \<open>searchDocuments\<close> settles.\<close>

definition drop_nth :: "nat \<Rightarrow> 'a list \<Rightarrow> 'a list" where
  "drop_nth i xs = take i xs @ drop (Suc i) xs"

definition resolve :: "nat \<Rightarrow> 'd response \<Rightarrow> ('d, 'e) state \<Rightarrow> ('d, 'e) state" where
  "resolve i r s =
     (if i < length (pending s)
      then fetch_resolved (pending s ! i) r (s\<lparr>pending := drop_nth i (pending s)\<rparr>)
      else s)"

definition reject :: "nat \<Rightarrow> 'e \<Rightarrow> ('d, 'e) state \<Rightarrow> ('d, 'e) state" where
  "reject i err s =
     (if i < length (pending s)
      then fetch_rejected err (s\<lparr>pending := drop_nth i (pending s)\<rparr>)
      else s)"








text \<open>
  Every timeout that is set is the one the cleanup of the second effect will clear.
  This holds after mounting and after every event.
\<close>

definition held :: "('d, 'e) state \<Rightarrow> bool" where
  "held s = list_all (\<lambda>t. handler s = Some (fst t)) (timers s)"


section \<open>The landing page (HomePage)\<close>

text \<open>
  What a fetch may reject with: an \<open>Error\<close> object (its name and message), a string,
  \<open>undefined\<close> or \<open>null\<close>. \<open>message_of\<close> is \<open>err?.message\<close> (\<open>None\<close> for
  \<open>undefined\<close>), \<open>String_of\<close> is \<open>String(err)\<close>, and \<open>error_text\<close> is
  \<open>err?.message || String(err)\<close>.
\<close>

datatype thrown = ErrorObj string string | ThrownString string | ThrownUndefined | ThrownNull

fun message_of :: "thrown \<Rightarrow> string option" where
  "message_of (ErrorObj name msg) = Some msg"
| "message_of (ThrownString s) = None"
| "message_of ThrownUndefined = None"
| "message_of ThrownNull = None"

fun String_of :: "thrown \<Rightarrow> string" where
  "String_of (ErrorObj name msg) =
     (if name = [] then msg else if msg = [] then name else name @ '': '' @ msg)"
| "String_of (ThrownString s) = s"
| "String_of ThrownUndefined = ''undefined''"
| "String_of ThrownNull = ''null''"

definition error_text :: "thrown \<Rightarrow> string" where
  "error_text err =
     (case message_of err of
        Some msg \<Rightarrow> if msg \<noteq> [] then msg else String_of err
      | None \<Rightarrow> String_of err)"

text \<open>
  A promise, and how a fetch settles. The value a fetch resolves with is an array, or
  \<open>null\<close>/\<open>undefined\<close> (\<open>None\<close>); \<open>or_empty\<close> is \<open>value || []\<close>.
\<close>

datatype 'v promise = Pending | Fulfilled 'v | Rejected thrown

datatype 'v outcome = Resolved 'v | Failed thrown

fun settle :: "'v outcome \<Rightarrow> 'v promise" where
  "settle (Resolved v) = Fulfilled v"
| "settle (Failed err) = Rejected err"

fun or_empty :: "'a list option \<Rightarrow> 'a list" where
  "or_empty None = []"
| "or_empty (Some xs) = xs"

text \<open>
  The hook state of the page, the \<open>mounted\<close> flag of its effect, the two fetches and
  whether \<open>Promise.all\<close> has settled (so that \<open>loadInitialData\<close> has resumed).
\<close>

record ('a, 'b) home =
  recentDocuments :: "'a list"
  recentPosts :: "'b list"
  isLoading :: bool
  error :: "string option"
  mounted :: bool
  documents_promise :: "'a list option promise"
  posts_promise :: "'b list option promise"
  all_settled :: bool

definition home_mount :: "('a, 'b) home" where
  "home_mount =
     \<lparr>recentDocuments = [], recentPosts = [], isLoading = True, error = None,
      mounted = True, documents_promise = Pending, posts_promise = Pending,
      all_settled = False\<rparr>"

text \<open>\<open>loadInitialData\<close> after the \<open>await\<close>, when both fetches resolved.\<close>

definition on_fulfilled :: "'a list option \<Rightarrow> 'b list option \<Rightarrow> ('a, 'b) home \<Rightarrow> ('a, 'b) home" where
  "on_fulfilled documentsData postsData s =
     (if \<not> mounted s then s
      else s\<lparr>recentDocuments := or_empty documentsData,
             recentPosts := or_empty postsData,
             isLoading := False\<rparr>)"

text \<open>The \<open>catch\<close> block and the \<open>finally\<close>, when \<open>Promise.all\<close> rejected.\<close>

definition on_rejected :: "thrown \<Rightarrow> ('a, 'b) home \<Rightarrow> ('a, 'b) home" where
  "on_rejected err s =
     (let s1 = s\<lparr>error := Some (error_text err)\<rparr>
      in if mounted s1 then s1\<lparr>isLoading := False\<rparr> else s1)"

datatype ('a, 'b) home_event =
  DocumentsSettled "'a list option outcome"
| PostsSettled "'b list option outcome"
| Unmount

text \<open>
  A fetch settles once. \<open>Promise.all\<close> rejects with the first rejection and is
  fulfilled when both fetches are.
\<close>

fun home_step :: "('a, 'b) home_event \<Rightarrow> ('a, 'b) home \<Rightarrow> ('a, 'b) home" where
  "home_step Unmount s = s\<lparr>mounted := False\<rparr>"
| "home_step (DocumentsSettled out) s =
     (if documents_promise s \<noteq> Pending then s
      else let s1 = s\<lparr>documents_promise := settle out\<rparr>
           in if all_settled s1 then s1
              else case out of
                     Failed err \<Rightarrow> on_rejected err (s1\<lparr>all_settled := True\<rparr>)
                   | Resolved documentsData \<Rightarrow>
                       (case posts_promise s1 of
                          Fulfilled postsData \<Rightarrow>
                            on_fulfilled documentsData postsData (s1\<lparr>all_settled := True\<rparr>)
                        | _ \<Rightarrow> s1))"
| "home_step (PostsSettled out) s =
     (if posts_promise s \<noteq> Pending then s
      else let s1 = s\<lparr>posts_promise := settle out\<rparr>
           in if all_settled s1 then s1
              else case out of
                     Failed err \<Rightarrow> on_rejected err (s1\<lparr>all_settled := True\<rparr>)
                   | Resolved postsData \<Rightarrow>
                       (case documents_promise s1 of
                          Fulfilled documentsData \<Rightarrow>
                            on_fulfilled documentsData postsData (s1\<lparr>all_settled := True\<rparr>)
                        | _ \<Rightarrow> s1))"

definition home_run :: "('a, 'b) home_event list \<Rightarrow> ('a, 'b) home \<Rightarrow> ('a, 'b) home" where
  "home_run evs s = fold home_step evs s"

text \<open>What the component returns: the spinner, the error message, or the page.\<close>

datatype ('a, 'b) view = LoadingSpinner | ErrorMessage string | Page "'a list" "'b list"

definition render :: "('a, 'b) home \<Rightarrow> ('a, 'b) view" where
  "render s =
     (if isLoading s then LoadingSpinner
      else case error s of
             None \<Rightarrow> Page (recentDocuments s) (recentPosts s)
           | Some e \<Rightarrow> if e \<noteq> [] then ErrorMessage (''Error: '' @ e)
                       else Page (recentDocuments s) (recentPosts s))"

section \<open>Evaluation and frame lemmas\<close>

lemmas search_defs = mount_def initial_state_def run_effects_def fetchDocuments_def
  make_fetch_def current_closure_def spread_def setTimeout_fetch_def clearTimeout_def
  cleanup_def
  get_or_empty_def usp_get_def setSearchTerm_def updateFilters_def handleLoadMore_def
  elapse_def resolve_def reject_def drop_nth_def fetch_resolved_def fetch_rejected_def
  updateUrlWithSearchParams_def usp_delete_def Let_def


lemmas home_defs = home_mount_def on_rejected_def on_fulfilled_def render_def Let_def

lemma spread_map_of:
  "distinct (map fst b) \<Longrightarrow> map_of (spread a b) = map_of a ++ map_of b"
proof (induction b arbitrary: a)
  case Nil
  then show ?case by (simp add: spread_def)
next
  case (Cons p b)
  obtain k v where p: "p = (k, v)" by (cases p)
  from Cons.prems p have k: "k \<notin> fst ` set b" and d: "distinct (map fst b)" by auto
  have "map_of (spread a (p # b)) = map_of (spread (AList.update k v a) b)"
    by (simp add: spread_def p)
  also have "\<dots> = map_of (AList.update k v a) ++ map_of b"
    using Cons.IH [OF d] .
  also have "\<dots> = map_of a ++ map_of (p # b)"
  proof (rule ext)
    fix x
    show "(map_of (AList.update k v a) ++ map_of b) x = (map_of a ++ map_of (p # b)) x"
    proof -
      from k have "map_of b k = None" by (simp add: map_of_eq_None_iff)
      then show ?thesis
        by (cases "map_of b x") (auto simp: p update_conv' map_add_def)
    qed
  qed
  finally show ?case .
qed

lemma run_effects_fields [simp]:
  "searchTerm (run_effects a b s) = searchTerm s"
  "filters (run_effects a b s) = filters s"
  "documents (run_effects a b s) = documents s"
  "page (run_effects a b s) = page s"
  "hasMore (run_effects a b s) = hasMore s"
  "location (run_effects a b s) = location s"
  "now (run_effects a b s) = now s"
  "console (run_effects a b s) = console s"
  by (simp_all add: run_effects_def Let_def fetchDocuments_def setTimeout_fetch_def
      clearTimeout_def cleanup_def split: option.splits)

section \<open>Load more\<close>

text \<open>
  C3. In a state with \<open>loading\<close> set or \<open>hasMore\<close> cleared, \<open>handleLoadMore\<close> does
  nothing: the whole state is the same afterwards, the term, filters, page, results
  and flags as well as the calls issued, the calls pending and the timeout.
\<close>

theorem loadMore_noop: "loading s \<or> \<not> hasMore s \<Longrightarrow> handleLoadMore s = s"
  by (auto simp: handleLoadMore_def)

theorem loadMore_noop_witness:
  "loading (mount [] :: (nat, string) state)
   \<and> handleLoadMore (mount [] :: (nat, string) state) = mount []
   \<and> \<not> hasMore (resolve 0 \<lparr>data = [7], totalPages = 1\<rparr> (mount []) :: (nat, string) state)
   \<and> handleLoadMore (resolve 0 \<lparr>data = [7], totalPages = 1\<rparr> (mount []) :: (nat, string) state)
       = resolve 0 \<lparr>data = [7], totalPages = 1\<rparr> (mount [])"
proof -
  let ?s = "mount [] :: (nat, string) state"
  let ?t = "resolve 0 \<lparr>data = [7], totalPages = 1\<rparr> (mount []) :: (nat, string) state"
  have h1: "loading ?s" by (simp add: search_defs)
  have h2: "\<not> hasMore ?t" by (simp add: search_defs)
  from h1 have "handleLoadMore ?s = ?s" by (intro loadMore_noop disjI1)
  moreover from h2 have "handleLoadMore ?t = ?t" by (intro loadMore_noop disjI2)
  ultimately show ?thesis using h1 h2 by simp
qed

section \<open>A failed fetch\<close>

text \<open>
  C5. When a pending call of \<open>searchDocuments\<close> rejects, the error is written to the
  console and \<open>loading\<close> is cleared; the results, \<open>hasMore\<close>, the page, the term, the
  filters and the location keep their values, no further call is issued and no timeout
  is set. A call of \<open>fetchDocuments\<close> that is rejected at once leaves the state it
  started from, but for the cleared \<open>loading\<close>, the call in the list of calls issued
  and the console entry.
\<close>

theorem fetch_failure:
  assumes "i < length (pending s)"
  shows "documents (reject i err s) = documents s
       \<and> hasMore (reject i err s) = hasMore s
       \<and> page (reject i err s) = page s
       \<and> searchTerm (reject i err s) = searchTerm s
       \<and> filters (reject i err s) = filters s
       \<and> location (reject i err s) = location s
       \<and> loading (reject i err s) = False
       \<and> console (reject i err s) = console s @ [(''Error al buscar documentos:'', err)]
       \<and> issued (reject i err s) = issued s
       \<and> timers (reject i err s) = timers s
       \<and> handler (reject i err s) = handler s
       \<and> pending (reject i err s) = drop_nth i (pending s)
       \<and> reject (length (pending before)) err (fetchDocuments c isNew before)
           = before\<lparr>loading := False,
                issued := issued before @ [make_fetch c isNew],
                console := console before @ [(''Error al buscar documentos:'', err)]\<rparr>"
  using assms by (simp add: reject_def fetch_rejected_def fetchDocuments_def drop_nth_def)

theorem fetch_failure_witness:
  "(0::nat) < length (pending (mount [(''query'', ''x'')] :: (nat, string) state))
   \<and> documents (reject 0 ''timeout'' (mount [(''query'', ''x'')]) :: (nat, string) state) = []
   \<and> loading (reject 0 ''timeout'' (mount [(''query'', ''x'')]) :: (nat, string) state) = False
   \<and> console (reject 0 ''timeout'' (mount [(''query'', ''x'')]) :: (nat, string) state)
       = [(''Error al buscar documentos:'', ''timeout'')]
   \<and> pending (reject 0 ''timeout'' (mount [(''query'', ''x'')]) :: (nat, string) state) = []"
proof -
  let ?s = "mount [(''query'', ''x'')] :: (nat, string) state"
  have h: "(0::nat) < length (pending ?s)" by (simp add: search_defs)
  have d: "documents ?s = []" "console ?s = []" "drop_nth 0 (pending ?s) = []"
    by (simp_all add: search_defs)
  from fetch_failure [OF h, where err = "''timeout''" and before = ?s
      and c = "current_closure ?s" and isNew = True] d h
  show ?thesis by simp
qed

section \<open>Changing the filters\<close>

text \<open>
  C9. \<open>updateFilters(newFilters)\<close> leaves a filter object that gives every key of
  \<open>newFilters\<close> the value \<open>newFilters\<close> has for it and every other key the value it had
  before, and the page is 1 afterwards.
\<close>

theorem updateFilters_merge:
  assumes "distinct (map fst newFilters)"
  shows "(\<forall>k. map_of (filters (updateFilters newFilters s)) k =
            (case map_of newFilters k of Some v \<Rightarrow> Some v | None \<Rightarrow> map_of (filters s) k))
         \<and> page (updateFilters newFilters s) = 1"
  using assms by (simp add: updateFilters_def spread_map_of map_add_def)

theorem updateFilters_merge_witness:
  "distinct (map fst [(''category'', JStr ''Ciencias'')])
   \<and> map_of (filters (updateFilters [(''category'', JStr ''Ciencias'')]
         (mount [(''university'', ''UBA'')] :: (nat, string) state))) ''category''
       = Some (JStr ''Ciencias'')
   \<and> map_of (filters (updateFilters [(''category'', JStr ''Ciencias'')]
         (mount [(''university'', ''UBA'')] :: (nat, string) state))) ''university''
       = Some (JStr ''UBA'')
   \<and> page (updateFilters [(''category'', JStr ''Ciencias'')]
         (mount [(''university'', ''UBA'')] :: (nat, string) state)) = 1"
proof -
  let ?P = "[(''category'', JStr ''Ciencias'')]"
  let ?s = "mount [(''university'', ''UBA'')] :: (nat, string) state"
  have h: "distinct (map fst ?P)" by simp
  have f: "map_of (filters ?s) ''university'' = Some (JStr ''UBA'')"
    by (simp add: search_defs)
  from updateFilters_merge [OF h, of ?s] f h show ?thesis by simp
qed

section \<open>The query string after a successful fetch\<close>

lemma getAll_delete:
  "usp_getAll (usp_delete k q) k' = (if k' = k then [] else usp_getAll q k')"
  by (induction q) (auto simp: usp_getAll_def usp_delete_def)

lemma getAll_set:
  "usp_getAll (usp_set k v q) k' = (if k' = k then [v] else usp_getAll q k')"
proof (induction q)
  case Nil
  show ?case by (simp add: usp_getAll_def)
next
  case (Cons p q)
  show ?case
  proof (cases "fst p = k")
    case True
    have "usp_getAll ((k, v) # usp_delete k q) k'
            = (if k' = k then v # usp_getAll (usp_delete k q) k'
               else usp_getAll (usp_delete k q) k')"
      by (simp add: usp_getAll_def)
    with True show ?thesis by (auto simp: getAll_delete) (simp add: usp_getAll_def)
  next
    case False
    with Cons.IH show ?thesis by (auto simp: usp_getAll_def)
  qed
qed

lemma getAll_updateUrl:
  "distinct (map fst params) \<Longrightarrow>
   usp_getAll (updateUrlWithSearchParams params u) k =
     (case map_of params k of
        None \<Rightarrow> usp_getAll u k
      | Some v \<Rightarrow> if truthy v then [to_string v] else [])"
proof (induction params arbitrary: u)
  case Nil
  show ?case by (simp add: updateUrlWithSearchParams_def)
next
  case (Cons p params)
  obtain key val where p: "p = (key, val)" by (cases p)
  let ?u = "if truthy val then usp_set key (to_string val) u else usp_delete key u"
  from Cons.prems p have fresh: "map_of params key = None" and d: "distinct (map fst params)"
    by (auto simp: map_of_eq_None_iff)
  have step: "updateUrlWithSearchParams (p # params) u = updateUrlWithSearchParams params ?u"
    by (simp add: updateUrlWithSearchParams_def p)
  have here: "usp_getAll ?u k = (if k = key then (if truthy val then [to_string val] else [])
                                  else usp_getAll u k)"
    by (simp add: getAll_set getAll_delete)
  have "usp_getAll (updateUrlWithSearchParams (p # params) u) k
          = usp_getAll (updateUrlWithSearchParams params ?u) k"
    by (simp only: step)
  also have "\<dots> = (case map_of params k of
                       None \<Rightarrow> usp_getAll ?u k
                     | Some v \<Rightarrow> if truthy v then [to_string v] else [])"
    by (rule Cons.IH [OF d])
  also have "\<dots> = (case map_of (p # params) k of
                       None \<Rightarrow> usp_getAll u k
                     | Some v \<Rightarrow> if truthy v then [to_string v] else [])"
  proof (cases "k = key")
    case True
    with fresh show ?thesis by (simp add: p getAll_set getAll_delete)
  next
    case False
    then show ?thesis by (simp add: p getAll_set getAll_delete split: option.splits)
  qed
  finally show ?case .
qed

lemma distinct_spread: "distinct (map fst a) \<Longrightarrow> distinct (map fst (spread a b))"
proof (induction b arbitrary: a)
  case Nil
  then show ?case by (simp add: spread_def)
next
  case (Cons p b)
  obtain k v where p: "p = (k, v)" by (cases p)
  have "spread a (p # b) = spread (AList.update k v a) b" by (simp add: spread_def p)
  with Cons.IH [of "AList.update k v a"] Cons.prems show ?case
    by (simp add: distinct_update)
qed

lemma distinct_searchParams: "distinct (map fst (searchParams (make_fetch c isNew)))"
  by (simp add: make_fetch_def Let_def distinct_spread)

text \<open>
  C6, as the code has it. After a successful fetch, every key of the object passed to
  \<open>searchDocuments\<close> (\<open>query\<close>, \<open>page\<close>, \<open>limit\<close> and the filter keys) occurs in the
  query string exactly once, with its value as a string, when the value is truthy, and
  does not occur when the value is empty or undefined; every other key keeps the values
  the location had. For the filters \<open>{category: 'Ciencias', university: ''}\<close> the
  query string has \<open>category=Ciencias\<close> and no \<open>university\<close>.
\<close>

theorem url_after_fetch:
  "usp_getAll (location (fetch_resolved (make_fetch c isNew) r s)) k =
     (case map_of (searchParams (make_fetch c isNew)) k of
        None \<Rightarrow> usp_getAll (location s) k
      | Some v \<Rightarrow> if truthy v then [to_string v] else [])
   \<and> usp_getAll (location (fetch_resolved
         (make_fetch \<lparr>c_searchTerm = t,
                      c_filters = [(''category'', JStr ''Ciencias''), (''university'', JStr '''')],
                      c_page = p\<rparr> isNew) r s)) ''category'' = [''Ciencias'']
   \<and> usp_getAll (location (fetch_resolved
         (make_fetch \<lparr>c_searchTerm = t,
                      c_filters = [(''category'', JStr ''Ciencias''), (''university'', JStr '''')],
                      c_page = p\<rparr> isNew) r s)) ''university'' = []"
proof -
  have loc: "location (fetch_resolved f r s) = updateUrlWithSearchParams (searchParams f) (location s)"
    for f :: fetch
    by (simp add: fetch_resolved_def)
  have gen: "usp_getAll (location (fetch_resolved (make_fetch c isNew) r s)) k =
     (case map_of (searchParams (make_fetch c isNew)) k of
        None \<Rightarrow> usp_getAll (location s) k
      | Some v \<Rightarrow> if truthy v then [to_string v] else [])" for c k
    by (simp only: loc getAll_updateUrl [OF distinct_searchParams])
  let ?c = "\<lparr>c_searchTerm = t,
             c_filters = [(''category'', JStr ''Ciencias''), (''university'', JStr '''')],
             c_page = p\<rparr>"
  have sp: "map_of (searchParams (make_fetch ?c isNew)) ''category'' = Some (JStr ''Ciencias'')"
    "map_of (searchParams (make_fetch ?c isNew)) ''university'' = Some (JStr '''')"
    by (simp_all add: make_fetch_def spread_def Let_def)
  show ?thesis
    using gen [of c k] gen [of ?c "''category''"] gen [of ?c "''university''"] sp
    by simp
qed

text \<open>
  The query string does not consist of the search parameters alone: starting from
  \<open>?ref=home&category=Ciencias\<close>, the first successful fetch leaves
  \<open>?ref=home&category=Ciencias&page=1&limit=12\<close>, where \<open>ref\<close> is no key of the
  search parameters.
\<close>

theorem url_keeps_other_keys:
  "location (resolve 0 \<lparr>data = [], totalPages = 1\<rparr>
      (mount [(''ref'', ''home''), (''category'', ''Ciencias'')] :: (nat, string) state))
     = [(''ref'', ''home''), (''category'', ''Ciencias''), (''page'', ''1''), (''limit'', ''12'')]
   \<and> map (map_of (searchParams (pending
        (mount [(''ref'', ''home''), (''category'', ''Ciencias'')] :: (nat, string) state) ! 0)))
        [''ref'', ''limit'']
     = [None, Some (JNum 12)]"
  by (simp add: search_defs string_of_nat.simps digit_char_def)

section \<open>Debouncing\<close>

text \<open>
  Nothing but \<open>clearTimeout\<close> takes a timeout away before it fires: two timeouts set
  100ms apart with no cleanup in between both fire, in the order they were set.
\<close>

lemma timeouts_accumulate:
  "issued (elapse 500 (setTimeout_fetch
      ((setTimeout_fetch (initial_state [] :: (nat, string) state))
         \<lparr>searchTerm := ''x'', now := 100\<rparr>)))
     = [make_fetch \<lparr>c_searchTerm = '''', c_filters = filters (initial_state [] :: (nat, string) state),
                    c_page = 1\<rparr> True,
        make_fetch \<lparr>c_searchTerm = ''x'', c_filters = filters (initial_state [] :: (nat, string) state),
                    c_page = 1\<rparr> True]"
  "timers (elapse 450 (setTimeout_fetch
      ((setTimeout_fetch (initial_state [] :: (nat, string) state))
         \<lparr>searchTerm := ''x'', now := 100\<rparr>)))
     = [(2, 600, \<lparr>c_searchTerm = ''x'', c_filters = filters (initial_state [] :: (nat, string) state),
                    c_page = 1\<rparr>)]"
  by (simp_all add: setTimeout_fetch_def elapse_def Let_def initial_state_def
      fetchDocuments_def current_closure_def get_or_empty_def usp_get_def)

lemma held_frame:
  "timers s' = timers s \<Longrightarrow> handler s' = handler s \<Longrightarrow> held s' = held s"
  by (simp add: held_def)

lemma cleanup_held:
  assumes "held s"
  shows "timers (cleanup s) = []"
proof (cases "handler s")
  case None
  with assms have "timers s = []" by (cases "timers s") (simp_all add: held_def)
  with None show ?thesis by (simp add: cleanup_def)
next
  case (Some h)
  with assms have "\<forall>t\<in>set (timers s). fst t = h" by (auto simp: held_def list_all_iff)
  then have "filter (\<lambda>t. fst t \<noteq> h) (timers s) = []" by (simp add: filter_empty_conv)
  with Some show ?thesis by (simp add: cleanup_def clearTimeout_def)
qed

lemma cleanup_fields [simp]:
  "now (cleanup s) = now s" "handler (cleanup s) = handler s"
  "next_handle (cleanup s) = next_handle s" "issued (cleanup s) = issued s"
  "current_closure (cleanup s) = current_closure s"
  by (simp_all add: cleanup_def clearTimeout_def current_closure_def split: option.splits)

lemma fetchDocuments_fields [simp]:
  "timers (fetchDocuments c b s) = timers s" "handler (fetchDocuments c b s) = handler s"
  "next_handle (fetchDocuments c b s) = next_handle s" "now (fetchDocuments c b s) = now s"
  "current_closure (fetchDocuments c b s) = current_closure s"
  "held (fetchDocuments c b s) = held s"
  "issued (fetchDocuments c b s) = issued s @ [make_fetch c b]"
  by (simp_all add: fetchDocuments_def current_closure_def held_def)

lemma run_effects_schedules:
  assumes "held s"
  shows "timers (run_effects a True s) = [(next_handle s, now s + 500, current_closure s)]"
    and "handler (run_effects a True s) = Some (next_handle s)"
    and "issued (run_effects a True s)
           = issued s @ (if a then [make_fetch (current_closure s) False] else [])"
  using assms cleanup_held [of "fetchDocuments (current_closure s) False s"] cleanup_held [of s]
  by (simp_all add: run_effects_def Let_def setTimeout_fetch_def)

lemma run_effects_current_closure [simp]:
  "current_closure (run_effects a b s) = current_closure s"
  by (simp add: current_closure_def)

lemma held_run_effects: "held s \<Longrightarrow> held (run_effects a b s)"
proof (cases b)
  case True
  assume "held s"
  from run_effects_schedules(1,2) [OF this, of a] True show ?thesis by (simp add: held_def)
next
  case False
  assume "held s"
  with False show ?thesis by (simp add: run_effects_def Let_def)
qed

lemma held_mount: "held (mount q)"
proof -
  have "held (initial_state q :: ('a, 'b) state)"
    by (simp add: held_def initial_state_def)
  then show ?thesis unfolding mount_def by (rule held_run_effects)
qed



lemma held_handleLoadMore:
  assumes "held s"
  shows "held (handleLoadMore s)"
proof -
  from assms have "held (s\<lparr>page := page s + 1\<rparr>)" by (simp add: held_def)
  then have "held (run_effects True True (s\<lparr>page := page s + 1\<rparr>))"
    by (rule held_run_effects)
  with assms show ?thesis by (simp add: handleLoadMore_def)
qed

lemma fire_fields [simp]:
  "timers (fold (\<lambda>(h, deadline, c). fetchDocuments c True) due s) = timers s"
  "handler (fold (\<lambda>(h, deadline, c). fetchDocuments c True) due s) = handler s"
  "searchTerm (fold (\<lambda>(h, deadline, c). fetchDocuments c True) due s) = searchTerm s"
  "filters (fold (\<lambda>(h, deadline, c). fetchDocuments c True) due s) = filters s"
  "page (fold (\<lambda>(h, deadline, c). fetchDocuments c True) due s) = page s"
  "now (fold (\<lambda>(h, deadline, c). fetchDocuments c True) due s) = now s"
  by (induction due arbitrary: s) (simp_all add: case_prod_beta fetchDocuments_def)


lemma held_resolve: "held s \<Longrightarrow> held (resolve i r s)"
  by (simp add: resolve_def fetch_resolved_def held_def)

lemma held_reject: "held s \<Longrightarrow> held (reject i err s)"
  by (simp add: reject_def fetch_rejected_def held_def)

lemma elapse_fields [simp]:
  "searchTerm (elapse d s) = searchTerm s"
  "filters (elapse d s) = filters s"
  "page (elapse d s) = page s"
  "now (elapse d s) = now s + d"
  by (simp_all add: elapse_def Let_def)









lemma setSearchTerm_fields [simp]:
  "searchTerm (setSearchTerm t s) = t" "filters (setSearchTerm t s) = filters s"
  by (simp_all add: setSearchTerm_def)

lemma updateFilters_fields [simp]:
  "searchTerm (updateFilters P s) = searchTerm s"
  "filters (updateFilters P s) = spread (filters s) P"
  by (simp_all add: updateFilters_def)






section \<open>Scenarios\<close>

text \<open>
  C4. Mounted on a location without parameters, the component calls
  \<open>searchDocuments\<close> with query \<open>''\<close>, page 1 and limit 12 (and the four empty
  filters). After the answer \<open>{data: [d1, d2], totalPages: 3}\<close> the results are
  \<open>[d1, d2]\<close> and \<open>hasMore\<close> holds; \<open>handleLoadMore\<close> then asks for page 2, and after
  \<open>{data: [d3], totalPages: 3}\<close> the results are \<open>[d1, d2, d3]\<close> and \<open>hasMore\<close> holds.
  The same holds when the debounced fetch of the mount has fired and been answered
  before the load-more, and when the debounced fetch that follows the load-more is
  answered first. After every successful fetch, \<open>hasMore\<close> is
  \<open>totalPages > currentPage\<close>.
\<close>

theorem scenario:
  "(let s0 = mount [] :: ('d, 'e) state;
        s1 = resolve 0 \<lparr>data = [d1, d2], totalPages = 3\<rparr> s0;
        s2 = handleLoadMore s1;
        s3 = resolve 0 \<lparr>data = [d3], totalPages = 3\<rparr> s2
    in issued s0 = [\<lparr>isNewSearch = False, currentPage = 1,
                      searchParams = [(''query'', JStr ''''), (''page'', JNum 1),
                        (''limit'', JNum 12), (''category'', JStr ''''),
                        (''university'', JStr ''''), (''fromDate'', JStr ''''),
                        (''toDate'', JStr '''')]\<rparr>]
     \<and> documents s1 = [d1, d2] \<and> hasMore s1
     \<and> pending s2 = [\<lparr>isNewSearch = False, currentPage = 2,
                      searchParams = [(''query'', JStr ''''), (''page'', JNum 2),
                        (''limit'', JNum 12), (''category'', JStr ''''),
                        (''university'', JStr ''''), (''fromDate'', JStr ''''),
                        (''toDate'', JStr '''')]\<rparr>]
     \<and> documents s3 = [d1, d2, d3] \<and> hasMore s3)
   \<and> (let s0 = mount [] :: ('d, 'e) state;
        s1 = resolve 0 \<lparr>data = [d1, d2], totalPages = 3\<rparr> s0;
        t1 = resolve 0 \<lparr>data = [d1, d2], totalPages = 3\<rparr> (elapse 500 s1);
        s2 = handleLoadMore t1;
        s3 = resolve 0 \<lparr>data = [d3], totalPages = 3\<rparr> s2
    in documents t1 = [d1, d2] \<and> hasMore t1
     \<and> map currentPage (pending s2) = [2]
     \<and> documents s3 = [d1, d2, d3] \<and> hasMore s3)
   \<and> (let s0 = mount [] :: ('d, 'e) state;
        s1 = resolve 0 \<lparr>data = [d1, d2], totalPages = 3\<rparr> s0;
        s2 = elapse 500 (handleLoadMore s1);
        t2 = resolve 1 \<lparr>data = [d1, d2], totalPages = 3\<rparr> s2;
        s3 = resolve 0 \<lparr>data = [d3], totalPages = 3\<rparr> t2
    in map currentPage (pending s2) = [2, 1]
     \<and> documents s3 = [d1, d2, d3] \<and> hasMore s3)
   \<and> hasMore (fetch_resolved f r (s :: ('d, 'e) state)) = (int (currentPage f) < totalPages r)"
  unfolding Let_def by (simp add: search_defs)

text \<open>
  C1 at a term change after a load-more: the debounced fetch asks for page 1 and its
  answer replaces the results, but \<open>page\<close> is still 2 (only \<open>updateFilters\<close> calls
  \<open>setPage(1)\<close>), so the next load-more asks for page 3.
\<close>

theorem term_change_keeps_page:
  "(let s0 = mount [] :: ('d, 'e) state;
        s1 = resolve 0 \<lparr>data = [d1, d2], totalPages = 3\<rparr> s0;
        s2 = handleLoadMore s1;
        s3 = resolve 0 \<lparr>data = [d3], totalPages = 3\<rparr> s2;
        s4 = setSearchTerm ''x'' s3;
        s5 = elapse 500 s4;
        s6 = resolve 0 \<lparr>data = [d4], totalPages = 5\<rparr> s5
    in pending s5 = [\<lparr>isNewSearch = True, currentPage = 1,
                      searchParams = [(''query'', JStr ''x''), (''page'', JNum 1),
                        (''limit'', JNum 12), (''category'', JStr ''''),
                        (''university'', JStr ''''), (''fromDate'', JStr ''''),
                        (''toDate'', JStr '''')]\<rparr>]
     \<and> documents s6 = [d4] \<and> page s5 = 2 \<and> page s6 = 2
     \<and> map currentPage (pending (handleLoadMore s6)) = [3])"
  unfolding Let_def by (simp add: search_defs)

section \<open>The landing page\<close>

lemma settled_step:
  assumes "all_settled s"
  shows "all_settled (home_step ev s)" "isLoading (home_step ev s) = isLoading s"
    "error (home_step ev s) = error s" "recentDocuments (home_step ev s) = recentDocuments s"
    "recentPosts (home_step ev s) = recentPosts s"
  using assms by (cases ev; simp add: Let_def)+

lemma settled_run:
  "all_settled s \<Longrightarrow> render (home_run evs s) = render s"
proof (induction evs arbitrary: s)
  case Nil
  show ?case by (simp add: home_run_def)
next
  case (Cons ev evs)
  have "render (home_run (ev # evs) s) = render (home_run evs (home_step ev s))"
    by (simp add: home_run_def)
  also have "\<dots> = render (home_step ev s)"
    using Cons.prems by (intro Cons.IH settled_step)
  also have "\<dots> = render s"
    using settled_step [OF Cons.prems, of ev] by (simp add: render_def split: option.splits)
  finally show ?case .
qed

lemma home_run_Cons: "home_run (ev # evs) s = home_run evs (home_step ev s)"
  by (simp add: home_run_def)

lemma settled_view:
  "all_settled s \<and> render s = v \<Longrightarrow> render (home_run evs s) = v"
  by (simp add: settled_run)

lemma String_of_cases:
  "String_of (ErrorObj [] msg) = msg"
  "String_of (ErrorObj (a # name) []) = a # name"
  "String_of (ErrorObj (a # name) (c # msg)) = (a # name) @ '': '' @ (c # msg)"
  "String_of (ThrownString s) = s"
  "String_of ThrownUndefined = ''undefined''"
  "String_of ThrownNull = ''null''"
  by simp_all





lemma both_resolved:
  "all_settled (home_step (PostsSettled (Resolved postsData))
             (home_step (DocumentsSettled (Resolved documentsData)) home_mount))
   \<and> render (home_step (PostsSettled (Resolved postsData))
             (home_step (DocumentsSettled (Resolved documentsData)) home_mount))
       = Page (or_empty documentsData) (or_empty postsData)"
  "all_settled (home_step (DocumentsSettled (Resolved documentsData))
             (home_step (PostsSettled (Resolved postsData)) home_mount))
   \<and> render (home_step (DocumentsSettled (Resolved documentsData))
             (home_step (PostsSettled (Resolved postsData)) home_mount))
       = Page (or_empty documentsData) (or_empty postsData)"
  by (simp_all add: home_defs)

text \<open>
  C10. When both fetches resolve, in either order, the page renders the two lists,
  with the empty list in place of a \<open>null\<close> or \<open>undefined\<close> result.
\<close>

theorem null_becomes_empty:
  "render (home_run (DocumentsSettled (Resolved documentsData)
                      # PostsSettled (Resolved postsData) # later) home_mount)
     = Page (or_empty documentsData) (or_empty postsData)
   \<and> render (home_run (PostsSettled (Resolved postsData)
                      # DocumentsSettled (Resolved documentsData) # later) home_mount)
     = Page (or_empty documentsData) (or_empty postsData)
   \<and> recentDocuments (home_run [DocumentsSettled (Resolved None),
                                 PostsSettled (Resolved postsData)] home_mount) = []
   \<and> recentPosts (home_run [DocumentsSettled (Resolved documentsData),
                             PostsSettled (Resolved None)] home_mount) = []
   \<and> recentDocuments (home_run [DocumentsSettled (Resolved (Some docs)),
                                 PostsSettled (Resolved postsData)] home_mount) = docs
   \<and> recentPosts (home_run [DocumentsSettled (Resolved documentsData),
                             PostsSettled (Resolved (Some posts))] home_mount) = posts"
proof (intro conjI)
  show "render (home_run (DocumentsSettled (Resolved documentsData)
                      # PostsSettled (Resolved postsData) # later) home_mount)
     = Page (or_empty documentsData) (or_empty postsData)"
    by (simp only: home_run_Cons settled_view [OF both_resolved(1)])
  show "render (home_run (PostsSettled (Resolved postsData)
                      # DocumentsSettled (Resolved documentsData) # later) home_mount)
     = Page (or_empty documentsData) (or_empty postsData)"
    by (simp only: home_run_Cons settled_view [OF both_resolved(2)])
qed (simp_all add: home_run_def home_defs)

text \<open>
  C7 at a rejection after the unmount: the \<open>catch\<close> block calls \<open>setError\<close> without
  looking at \<open>mounted\<close>, so the error state is set; after two resolutions nothing is
  set.
\<close>

theorem setError_after_unmount:
  "error (home_run [Unmount] home_mount) = None
   \<and> mounted (home_run [Unmount, PostsSettled (Failed (ErrorObj ''Error'' ''timeout''))]
        home_mount) = False
   \<and> error (home_run [Unmount, PostsSettled (Failed (ErrorObj ''Error'' ''timeout''))]
        home_mount) = Some ''timeout''
   \<and> recentDocuments (home_run [Unmount, DocumentsSettled (Resolved (Some [d])),
        PostsSettled (Resolved (Some [p]))] home_mount) = []"
  by (simp add: home_run_def home_defs error_text_def)

end
